theory Spec2Isabelle
  imports Complex_Main "HOL-Library.Word" "HOL-Library.Monad_Syntax"
begin

unbundle bit_operations_syntax

section \<open>Numeric conventions\<close>

text \<open>
  KoeKit computes on \<^verbatim>\<open>float\<close> and \<^verbatim>\<open>double\<close>. This development reads every such
  value as an exact real number: no rounding, no NaN, no infinity. A division by zero,
  which gives an infinity or NaN in C++, is outside this reading; the statements below
  that depend on a quotient keep its divisor away from zero. Integer types keep
  their width: \<^verbatim>\<open>uint32_t\<close> and \<^verbatim>\<open>size_t\<close> (32 bits on the RP2350) are \<open>32 word\<close>,
  \<^verbatim>\<open>int16_t\<close> is \<open>16 word\<close> read through \<open>sint\<close>, \<^verbatim>\<open>uint16_t\<close> is \<open>16 word\<close> read
  through \<open>unat\<close>.
\<close>

type_synonym size_t = "32 word"
type_synonym WavetableSample = "16 word"

text \<open>\<^verbatim>\<open>std::clamp(v, lo, hi)\<close>: \<^verbatim>\<open>(v < lo) ? lo : (hi < v) ? hi : v\<close>.\<close>

definition clamp :: "'a::linorder \<Rightarrow> 'a \<Rightarrow> 'a \<Rightarrow> 'a" where
  "clamp v lo hi = (if v < lo then lo else if hi < v then hi else v)"

text \<open>KoeKit.h: \<^verbatim>\<open>KOEKIT_SAMPLE_RATE 22050\<close>, \<^verbatim>\<open>KOEKIT_WAVETABLE_SIZE 1024\<close>.\<close>

definition SAMPLE_RATE_F :: real where
  "SAMPLE_RATE_F = 22050"

definition WAVETABLE_SIZE :: nat where
  "WAVETABLE_SIZE = 1024"

section \<open>wavetable_generator.h\<close>

text \<open>\<^verbatim>\<open>constexpr float SAMPLE_SCALE = 32767.0f;\<close>\<close>

definition SAMPLE_SCALE :: real where
  "SAMPLE_SCALE = 32767"

text \<open>
  \<^verbatim>\<open>Wavetable<SIZE>\<close> holds \<^verbatim>\<open>std::array<WavetableSample, SIZE> samples_\<close>; the table is
  the list of its samples and \<^verbatim>\<open>SIZE\<close> is its length.
\<close>

type_synonym Wavetable = "WavetableSample list"

text \<open>
  \<^verbatim>\<open>getSample(size_t index)\<close> returns \<^verbatim>\<open>samples_[index % SIZE]\<close>. With \<^verbatim>\<open>SIZE = 0\<close> the
  remainder is undefined in C++: \<open>None\<close>.
\<close>

definition getSample :: "Wavetable \<Rightarrow> size_t \<Rightarrow> WavetableSample option" where
  "getSample t index =
     (if length t = 0 then None else Some (t ! (unat index mod length t)))"

text \<open>A C++ conversion from floating point to an integer type drops the fraction.\<close>

definition float_to_int :: "real \<Rightarrow> int" where
  "float_to_int x = (if 0 \<le> x then \<lfloor>x\<rfloor> else \<lceil>x\<rceil>)"

text \<open>
  The two wrapping loops of \<^verbatim>\<open>getInterpolated\<close>:
  \<^verbatim>\<open>while (index >= SIZE) index -= SIZE;\<close> and \<^verbatim>\<open>while (index < 0) index += SIZE;\<close>.
  With \<^verbatim>\<open>SIZE = 0\<close> one of them never ends, which is the value \<open>None\<close>. The exact
  reading of \<^verbatim>\<open>index -= SIZE\<close> is what the \<^verbatim>\<open>float\<close> code computes while index and size
  are integers up to \<open>2 ^ 24\<close>; on larger values the subtraction is rounded.
\<close>

partial_function (option) wrap_down :: "real \<Rightarrow> real \<Rightarrow> real option" where
  "wrap_down SIZE index = (if index \<ge> SIZE then wrap_down SIZE (index - SIZE) else Some index)"

partial_function (option) wrap_up :: "real \<Rightarrow> real \<Rightarrow> real option" where
  "wrap_up SIZE index = (if index < 0 then wrap_up SIZE (index + SIZE) else Some index)"

text \<open>\<^verbatim>\<open>static_cast<float>(samples_[i])\<close>: the signed value of the stored sample.\<close>

definition sample_to_float :: "WavetableSample \<Rightarrow> real" where
  "sample_to_float s = real_of_int (sint s)"

text \<open>
  \<^verbatim>\<open>getInterpolated(float index)\<close>. An array read past the end is undefined in C++: \<open>None\<close>.
\<close>

definition getInterpolated :: "Wavetable \<Rightarrow> real \<Rightarrow> real option" where
  "getInterpolated t index0 =
     do {
       index1 \<leftarrow> wrap_down (real (length t)) index0;
       index \<leftarrow> wrap_up (real (length t)) index1;
       let i1 = nat (float_to_int index);
           i2 = (i1 + 1) mod length t;
           frac = index - real i1
       in if i1 < length t \<and> i2 < length t
          then let s1 = sample_to_float (t ! i1);
                   s2 = sample_to_float (t ! i2)
               in Some ((s1 + frac * (s2 - s1)) / SAMPLE_SCALE)
          else None
     }"

text \<open>
  \<^verbatim>\<open>makeWavetable<SIZE>(generator)\<close>: for every \<^verbatim>\<open>i\<close> below \<^verbatim>\<open>SIZE\<close>,
  \<^verbatim>\<open>samples[i] = static_cast<WavetableSample>(std::clamp(generator(i), -1.0f, 1.0f) * SAMPLE_SCALE)\<close>.
\<close>

definition quantize :: "real \<Rightarrow> WavetableSample" where
  "quantize v = word_of_int (float_to_int (clamp v (- 1) 1 * SAMPLE_SCALE))"

definition makeWavetable :: "nat \<Rightarrow> (nat \<Rightarrow> real) \<Rightarrow> Wavetable" where
  "makeWavetable SIZE generator = map (\<lambda>i. quantize (generator i)) [0..<SIZE]"

section \<open>wavetables/basic.h\<close>

definition BASIC_TABLE_SIZE :: nat where
  "BASIC_TABLE_SIZE = 1024"

text \<open>
  \<^verbatim>\<open>makeSineTable()\<close>: the generator is \<^verbatim>\<open>sin(2.0f * M_PI * i / BASIC_TABLE_SIZE)\<close>.
\<close>

definition makeSineTable :: Wavetable where
  "makeSineTable =
     makeWavetable BASIC_TABLE_SIZE (\<lambda>i. sin (2 * pi * real i / real BASIC_TABLE_SIZE))"

definition SINE :: Wavetable where
  "SINE = makeSineTable"

section \<open>oscillator.h: PhaseAccumulator\<close>

record PhaseAccumulator =
  pa_phase :: real
  pa_increment :: real
  pa_sample_rate :: real

text \<open>The member initialisers: \<^verbatim>\<open>phase_ = 0.0\<close>, \<^verbatim>\<open>increment_ = 0.0\<close>, \<^verbatim>\<open>sample_rate_ = SAMPLE_RATE_F\<close>.\<close>

definition PhaseAccumulator_init :: PhaseAccumulator where
  "PhaseAccumulator_init = \<lparr>pa_phase = 0, pa_increment = 0, pa_sample_rate = SAMPLE_RATE_F\<rparr>"

text \<open>\<^verbatim>\<open>increment_ = static_cast<double>(frequency) / sample_rate_;\<close>\<close>

definition PhaseAccumulator_setFrequency :: "real \<Rightarrow> PhaseAccumulator \<Rightarrow> PhaseAccumulator" where
  "PhaseAccumulator_setFrequency frequency p =
     p\<lparr>pa_increment := frequency / pa_sample_rate p\<rparr>"

definition PhaseAccumulator_getCurrentFrequency :: "PhaseAccumulator \<Rightarrow> real" where
  "PhaseAccumulator_getCurrentFrequency p = pa_increment p * pa_sample_rate p"

definition PhaseAccumulator_setSampleRate :: "real \<Rightarrow> PhaseAccumulator \<Rightarrow> PhaseAccumulator" where
  "PhaseAccumulator_setSampleRate sample_rate p =
     (let freq = PhaseAccumulator_getCurrentFrequency p
      in PhaseAccumulator_setFrequency freq (p\<lparr>pa_sample_rate := sample_rate\<rparr>))"

text \<open>
  \<^verbatim>\<open>tick()\<close>: \<^verbatim>\<open>phase_ += increment_; if (phase_ >= 1.0) { phase_ -= 1.0; } return phase_;\<close>
  One conditional subtraction, no loop. The result is the returned phase and the
  accumulator after the call.
\<close>

definition PhaseAccumulator_tick :: "PhaseAccumulator \<Rightarrow> real \<times> PhaseAccumulator" where
  "PhaseAccumulator_tick p =
     (let ph = pa_phase p + pa_increment p;
          ph' = (if ph \<ge> 1 then ph - 1 else ph)
      in (ph', p\<lparr>pa_phase := ph'\<rparr>))"

definition PhaseAccumulator_reset :: "PhaseAccumulator \<Rightarrow> PhaseAccumulator" where
  "PhaseAccumulator_reset p = p\<lparr>pa_phase := 0\<rparr>"

text \<open>
  The loops of \<^verbatim>\<open>setPhase\<close>: \<^verbatim>\<open>while (phase_ >= 1.0) phase_ -= 1.0;\<close> and
  \<^verbatim>\<open>while (phase_ < 0.0) phase_ += 1.0;\<close>. On real numbers both end.
\<close>

function phase_wrap_down :: "real \<Rightarrow> real" where
  "phase_wrap_down x = (if x \<ge> 1 then phase_wrap_down (x - 1) else x)"
  by pat_completeness auto
termination
proof (relation "measure (\<lambda>x. nat \<lfloor>x\<rfloor>)")
  show "wf (measure (\<lambda>x::real. nat \<lfloor>x\<rfloor>))" by simp
next
  fix x :: real
  assume "1 \<le> x"
  then have "1 \<le> \<lfloor>x\<rfloor>" by linarith
  moreover have "\<lfloor>x - 1\<rfloor> = \<lfloor>x\<rfloor> - 1" by simp
  ultimately show "(x - 1, x) \<in> measure (\<lambda>x. nat \<lfloor>x\<rfloor>)" by simp
qed

function phase_wrap_up :: "real \<Rightarrow> real" where
  "phase_wrap_up x = (if x < 0 then phase_wrap_up (x + 1) else x)"
  by pat_completeness auto
termination
proof (relation "measure (\<lambda>x. nat \<lceil>- x\<rceil>)")
  show "wf (measure (\<lambda>x::real. nat \<lceil>- x\<rceil>))" by simp
next
  fix x :: real
  assume "x < 0"
  then have "1 \<le> \<lceil>- x\<rceil>" by linarith
  moreover have "\<lceil>- (x + 1)\<rceil> = \<lceil>- x\<rceil> - 1"
    by (simp add: ceiling_def)
  ultimately show "(x + 1, x) \<in> measure (\<lambda>x. nat \<lceil>- x\<rceil>)" by simp
qed

declare phase_wrap_down.simps [simp del]
declare phase_wrap_up.simps [simp del]

definition PhaseAccumulator_setPhase :: "real \<Rightarrow> PhaseAccumulator \<Rightarrow> PhaseAccumulator" where
  "PhaseAccumulator_setPhase phase p = p\<lparr>pa_phase := phase_wrap_up (phase_wrap_down phase)\<rparr>"

definition PhaseAccumulator_getPhase :: "PhaseAccumulator \<Rightarrow> real" where
  "PhaseAccumulator_getPhase p = pa_phase p"

section \<open>oscillator.h: WavetableOscillator\<close>

text \<open>
  The oscillator points to a constant table; the model holds the table itself.
  \<^verbatim>\<open>TABLE_SIZE\<close> is the length of that table.
\<close>

record WavetableOscillator =
  osc_phase :: PhaseAccumulator
  osc_wavetable :: Wavetable
  osc_amplitude :: real

definition WavetableOscillator_new :: "Wavetable \<Rightarrow> WavetableOscillator" where
  "WavetableOscillator_new wavetable =
     \<lparr>osc_phase = PhaseAccumulator_init, osc_wavetable = wavetable, osc_amplitude = 1\<rparr>"

definition WavetableOscillator_setFrequency :: "real \<Rightarrow> WavetableOscillator \<Rightarrow> WavetableOscillator" where
  "WavetableOscillator_setFrequency frequency osc =
     osc\<lparr>osc_phase := PhaseAccumulator_setFrequency frequency (osc_phase osc)\<rparr>"

definition WavetableOscillator_setAmplitude :: "real \<Rightarrow> WavetableOscillator \<Rightarrow> WavetableOscillator" where
  "WavetableOscillator_setAmplitude amplitude osc = osc\<lparr>osc_amplitude := clamp amplitude 0 1\<rparr>"

definition WavetableOscillator_setPhase :: "real \<Rightarrow> WavetableOscillator \<Rightarrow> WavetableOscillator" where
  "WavetableOscillator_setPhase phase osc =
     osc\<lparr>osc_phase := PhaseAccumulator_setPhase phase (osc_phase osc)\<rparr>"

definition WavetableOscillator_setWavetable :: "Wavetable \<Rightarrow> WavetableOscillator \<Rightarrow> WavetableOscillator" where
  "WavetableOscillator_setWavetable wavetable osc = osc\<lparr>osc_wavetable := wavetable\<rparr>"

text \<open>
  \<^verbatim>\<open>process()\<close>: \<^verbatim>\<open>phase = phase_.tick(); table_index = phase * TABLE_SIZE;
  return wavetable_->getInterpolated(table_index) * amplitude_;\<close>
\<close>

definition WavetableOscillator_process :: "WavetableOscillator \<Rightarrow> (real \<times> WavetableOscillator) option" where
  "WavetableOscillator_process osc =
     (let (phase, pa) = PhaseAccumulator_tick (osc_phase osc);
          table_index = phase * real (length (osc_wavetable osc))
      in case getInterpolated (osc_wavetable osc) table_index of
           None \<Rightarrow> None
         | Some v \<Rightarrow> Some (v * osc_amplitude osc, osc\<lparr>osc_phase := pa\<rparr>))"

definition WavetableOscillator_reset :: "WavetableOscillator \<Rightarrow> WavetableOscillator" where
  "WavetableOscillator_reset osc = osc\<lparr>osc_phase := PhaseAccumulator_reset (osc_phase osc)\<rparr>"

definition WavetableOscillator_setSampleRate :: "real \<Rightarrow> WavetableOscillator \<Rightarrow> WavetableOscillator" where
  "WavetableOscillator_setSampleRate sample_rate osc =
     osc\<lparr>osc_phase := PhaseAccumulator_setSampleRate sample_rate (osc_phase osc)\<rparr>"

definition WavetableOscillator_getFrequency :: "WavetableOscillator \<Rightarrow> real" where
  "WavetableOscillator_getFrequency osc = PhaseAccumulator_getCurrentFrequency (osc_phase osc)"

definition WavetableOscillator_getAmplitude :: "WavetableOscillator \<Rightarrow> real" where
  "WavetableOscillator_getAmplitude osc = osc_amplitude osc"

text \<open>
  The scenario of the sine oscillator: the 1024-entry sine table, frequency 440 at the
  default sample rate 22050, amplitude 1, phase reset to zero.
\<close>

definition sine_440 :: WavetableOscillator where
  "sine_440 =
     WavetableOscillator_reset
       (WavetableOscillator_setAmplitude 1
         (WavetableOscillator_setFrequency 440 (WavetableOscillator_new SINE)))"

section \<open>filter.h: OnePole\<close>

record OnePole =
  op_y1 :: real
  op_a0 :: real
  op_b1 :: real
  op_sample_rate :: real
  op_cutoff :: real

definition OnePole_init :: OnePole where
  "OnePole_init =
     \<lparr>op_y1 = 0, op_a0 = 1, op_b1 = 0, op_sample_rate = SAMPLE_RATE_F, op_cutoff = 1000\<rparr>"

text \<open>
  \<^verbatim>\<open>updateCoefficients()\<close>: \<^verbatim>\<open>omega = 2.0f * M_PI * cutoff_ / sample_rate_;
  alpha = 1.0f - std::exp(-omega); a0_ = alpha; b1_ = 1.0f - alpha;\<close>
\<close>

definition OnePole_updateCoefficients :: "OnePole \<Rightarrow> OnePole" where
  "OnePole_updateCoefficients f =
     (let omega = 2 * pi * op_cutoff f / op_sample_rate f;
          alpha = 1 - exp (- omega)
      in f\<lparr>op_a0 := alpha, op_b1 := 1 - alpha\<rparr>)"

definition OnePole_setCutoff :: "real \<Rightarrow> OnePole \<Rightarrow> OnePole" where
  "OnePole_setCutoff cutoff f =
     OnePole_updateCoefficients (f\<lparr>op_cutoff := clamp cutoff 1 (op_sample_rate f * 0.49)\<rparr>)"

definition OnePole_setSampleRate :: "real \<Rightarrow> OnePole \<Rightarrow> OnePole" where
  "OnePole_setSampleRate sample_rate f =
     OnePole_updateCoefficients (f\<lparr>op_sample_rate := sample_rate\<rparr>)"

text \<open>\<^verbatim>\<open>processLPF\<close>: \<^verbatim>\<open>y1_ = a0_ * input + b1_ * y1_; return y1_;\<close>\<close>

definition OnePole_processLPF :: "real \<Rightarrow> OnePole \<Rightarrow> real \<times> OnePole" where
  "OnePole_processLPF input f =
     (let y = op_a0 f * input + op_b1 f * op_y1 f
      in (y, f\<lparr>op_y1 := y\<rparr>))"

text \<open>\<^verbatim>\<open>processHPF\<close>: \<^verbatim>\<open>lpf_out = processLPF(input); return input - lpf_out;\<close>\<close>

definition OnePole_processHPF :: "real \<Rightarrow> OnePole \<Rightarrow> real \<times> OnePole" where
  "OnePole_processHPF input f =
     (let (lpf_out, f') = OnePole_processLPF input f
      in (input - lpf_out, f'))"

definition OnePole_reset :: "OnePole \<Rightarrow> OnePole" where
  "OnePole_reset f = f\<lparr>op_y1 := 0\<rparr>"

definition OnePole_getCutoff :: "OnePole \<Rightarrow> real" where
  "OnePole_getCutoff f = op_cutoff f"

section \<open>filter.h: StateVariable\<close>

record StateVariable =
  svf_low :: real
  svf_band :: real
  svf_high :: real
  svf_f :: real
  svf_q :: real
  svf_sample_rate :: real
  svf_cutoff :: real
  svf_resonance :: real

definition StateVariable_init :: StateVariable where
  "StateVariable_init =
     \<lparr>svf_low = 0, svf_band = 0, svf_high = 0, svf_f = 0, svf_q = 1,
      svf_sample_rate = SAMPLE_RATE_F, svf_cutoff = 1000, svf_resonance = 0.7\<rparr>"

text \<open>
  \<^verbatim>\<open>updateCoefficients()\<close>: \<^verbatim>\<open>f_ = 2.0f * std::sin(M_PI * cutoff_ / sample_rate_);
  q_ = 1.0f / resonance_; f_ = std::clamp(f_, 0.0f, 1.9f); q_ = std::clamp(q_, 0.01f, 2.0f);\<close>
\<close>

definition StateVariable_updateCoefficients :: "StateVariable \<Rightarrow> StateVariable" where
  "StateVariable_updateCoefficients s =
     (let f = 2 * sin (pi * svf_cutoff s / svf_sample_rate s);
          q = 1 / svf_resonance s
      in s\<lparr>svf_f := clamp f 0 1.9, svf_q := clamp q 0.01 2\<rparr>)"

definition StateVariable_setParams :: "real \<Rightarrow> real \<Rightarrow> StateVariable \<Rightarrow> StateVariable" where
  "StateVariable_setParams cutoff resonance s =
     StateVariable_updateCoefficients
       (s\<lparr>svf_cutoff := clamp cutoff 1 (svf_sample_rate s * 0.45),
          svf_resonance := clamp resonance 0.1 10\<rparr>)"

definition StateVariable_setCutoff :: "real \<Rightarrow> StateVariable \<Rightarrow> StateVariable" where
  "StateVariable_setCutoff cutoff s = StateVariable_setParams cutoff (svf_resonance s) s"

definition StateVariable_setResonance :: "real \<Rightarrow> StateVariable \<Rightarrow> StateVariable" where
  "StateVariable_setResonance resonance s = StateVariable_setParams (svf_cutoff s) resonance s"

text \<open>
  \<^verbatim>\<open>process(input)\<close>: \<^verbatim>\<open>low_ += f_ * band_; high_ = input - low_ - q_ * band_;
  band_ += f_ * high_;\<close> and then each of the three is set to 0 when its magnitude is
  below \<open>1e-10\<close>.
\<close>

definition StateVariable_process :: "real \<Rightarrow> StateVariable \<Rightarrow> StateVariable" where
  "StateVariable_process input s =
     (let low = svf_low s + svf_f s * svf_band s;
          high = input - low - svf_q s * svf_band s;
          band = svf_band s + svf_f s * high;
          low' = (if \<bar>low\<bar> < 1 / 10 ^ 10 then 0 else low);
          band' = (if \<bar>band\<bar> < 1 / 10 ^ 10 then 0 else band);
          high' = (if \<bar>high\<bar> < 1 / 10 ^ 10 then 0 else high)
      in s\<lparr>svf_low := low', svf_band := band', svf_high := high'\<rparr>)"

definition StateVariable_reset :: "StateVariable \<Rightarrow> StateVariable" where
  "StateVariable_reset s = s\<lparr>svf_low := 0, svf_band := 0, svf_high := 0\<rparr>"

section \<open>oscillator.h: NoiseGenerator\<close>

record NoiseGenerator =
  ng_state :: "32 word"
  ng_amplitude :: real

text \<open>\<^verbatim>\<open>explicit NoiseGenerator(uint32_t seed = 1) : state_(seed == 0 ? 1 : seed) {}\<close>\<close>

definition NoiseGenerator_new :: "32 word \<Rightarrow> NoiseGenerator" where
  "NoiseGenerator_new seed = \<lparr>ng_state = (if seed = 0 then 1 else seed), ng_amplitude = 1\<rparr>"

definition NoiseGenerator_setAmplitude :: "real \<Rightarrow> NoiseGenerator \<Rightarrow> NoiseGenerator" where
  "NoiseGenerator_setAmplitude amplitude g = g\<lparr>ng_amplitude := clamp amplitude 0 1\<rparr>"

text \<open>
  The three update lines of \<^verbatim>\<open>process()\<close>:
  \<^verbatim>\<open>state_ ^= state_ << 13; state_ ^= state_ >> 17; state_ ^= state_ << 5;\<close>
\<close>

definition xorshift32 :: "32 word \<Rightarrow> 32 word" where
  "xorshift32 x =
     (let a = x XOR push_bit 13 x;
          b = a XOR drop_bit 17 a;
          c = b XOR push_bit 5 b
      in c)"

text \<open>\<^verbatim>\<open>process()\<close> returns the sample and leaves the generator with the new state.\<close>

definition NoiseGenerator_process :: "NoiseGenerator \<Rightarrow> real \<times> NoiseGenerator" where
  "NoiseGenerator_process g =
     (let s = xorshift32 (ng_state g);
          random = real (unat s) / 4294967295
      in ((random * 2 - 1) * ng_amplitude g, g\<lparr>ng_state := s\<rparr>))"

definition NoiseGenerator_reset :: "32 word \<Rightarrow> NoiseGenerator \<Rightarrow> NoiseGenerator" where
  "NoiseGenerator_reset seed g = g\<lparr>ng_state := (if seed = 0 then 1 else seed)\<rparr>"

text \<open>The generator after \<open>n\<close> calls of \<^verbatim>\<open>process()\<close>.\<close>

fun NoiseGenerator_run :: "nat \<Rightarrow> NoiseGenerator \<Rightarrow> NoiseGenerator" where
  "NoiseGenerator_run 0 g = g"
| "NoiseGenerator_run (Suc n) g = NoiseGenerator_run n (snd (NoiseGenerator_process g))"

section \<open>envelope.h: ADSR\<close>

datatype Stage = IDLE | ATTACK | DECAY | SUSTAIN | RELEASE

record ADSR =
  adsr_stage :: Stage
  adsr_level :: real
  adsr_target :: real
  adsr_increment :: real
  adsr_attack_time :: real
  adsr_decay_time :: real
  adsr_sustain_level :: real
  adsr_release_time :: real
  adsr_sample_rate :: real
  adsr_attack_inc :: real
  adsr_decay_inc :: real
  adsr_release_inc :: real

text \<open>
  The member initialisers. The class has no constructor body: the three precomputed
  increments start at \<open>0\<close> and are first computed by \<^verbatim>\<open>updateIncrements()\<close>.
\<close>

definition ADSR_init :: ADSR where
  "ADSR_init =
     \<lparr>adsr_stage = IDLE, adsr_level = 0, adsr_target = 0, adsr_increment = 0,
      adsr_attack_time = 0.01, adsr_decay_time = 0.1, adsr_sustain_level = 0.7,
      adsr_release_time = 0.3, adsr_sample_rate = SAMPLE_RATE_F,
      adsr_attack_inc = 0, adsr_decay_inc = 0, adsr_release_inc = 0\<rparr>"

definition ADSR_updateIncrements :: "ADSR \<Rightarrow> ADSR" where
  "ADSR_updateIncrements s =
     s\<lparr>adsr_attack_inc := 1 / (adsr_attack_time s * adsr_sample_rate s),
       adsr_decay_inc := (1 - adsr_sustain_level s) / (adsr_decay_time s * adsr_sample_rate s),
       adsr_release_inc := adsr_sustain_level s / (adsr_release_time s * adsr_sample_rate s)\<rparr>"

definition ADSR_setADSR :: "real \<Rightarrow> real \<Rightarrow> real \<Rightarrow> real \<Rightarrow> ADSR \<Rightarrow> ADSR" where
  "ADSR_setADSR attack decay sustain release s =
     ADSR_updateIncrements
       (s\<lparr>adsr_attack_time := max 0.001 attack,
          adsr_decay_time := max 0.001 decay,
          adsr_sustain_level := clamp sustain 0 1,
          adsr_release_time := max 0.001 release\<rparr>)"

definition ADSR_setAttack :: "real \<Rightarrow> ADSR \<Rightarrow> ADSR" where
  "ADSR_setAttack attack s =
     ADSR_setADSR attack (adsr_decay_time s) (adsr_sustain_level s) (adsr_release_time s) s"

definition ADSR_setDecay :: "real \<Rightarrow> ADSR \<Rightarrow> ADSR" where
  "ADSR_setDecay decay s =
     ADSR_setADSR (adsr_attack_time s) decay (adsr_sustain_level s) (adsr_release_time s) s"

definition ADSR_setSustain :: "real \<Rightarrow> ADSR \<Rightarrow> ADSR" where
  "ADSR_setSustain sustain s =
     ADSR_setADSR (adsr_attack_time s) (adsr_decay_time s) sustain (adsr_release_time s) s"

definition ADSR_setRelease :: "real \<Rightarrow> ADSR \<Rightarrow> ADSR" where
  "ADSR_setRelease release s =
     ADSR_setADSR (adsr_attack_time s) (adsr_decay_time s) (adsr_sustain_level s) release s"

definition ADSR_noteOn :: "ADSR \<Rightarrow> ADSR" where
  "ADSR_noteOn s = s\<lparr>adsr_stage := ATTACK, adsr_target := 1, adsr_increment := adsr_attack_inc s\<rparr>"

definition ADSR_noteOff :: "ADSR \<Rightarrow> ADSR" where
  "ADSR_noteOff s =
     (if adsr_stage s \<noteq> IDLE
      then s\<lparr>adsr_stage := RELEASE, adsr_target := 0, adsr_increment := - adsr_release_inc s\<rparr>
      else s)"

text \<open>\<^verbatim>\<open>process()\<close>: the \<^verbatim>\<open>switch\<close> on the stage, then \<^verbatim>\<open>return level_\<close>.\<close>

definition ADSR_process :: "ADSR \<Rightarrow> real \<times> ADSR" where
  "ADSR_process s =
     (let s' =
        (case adsr_stage s of
           IDLE \<Rightarrow> s\<lparr>adsr_level := 0\<rparr>
         | ATTACK \<Rightarrow>
             (let l = adsr_level s + adsr_increment s
              in if l \<ge> 1
                 then s\<lparr>adsr_level := 1, adsr_stage := DECAY,
                        adsr_target := adsr_sustain_level s,
                        adsr_increment := - adsr_decay_inc s\<rparr>
                 else s\<lparr>adsr_level := l\<rparr>)
         | DECAY \<Rightarrow>
             (let l = adsr_level s + adsr_increment s
              in if l \<le> adsr_sustain_level s
                 then s\<lparr>adsr_level := adsr_sustain_level s, adsr_stage := SUSTAIN,
                        adsr_increment := 0\<rparr>
                 else s\<lparr>adsr_level := l\<rparr>)
         | SUSTAIN \<Rightarrow> s\<lparr>adsr_level := adsr_sustain_level s\<rparr>
         | RELEASE \<Rightarrow>
             (let l = adsr_level s + adsr_increment s
              in if l \<le> 0
                 then s\<lparr>adsr_level := 0, adsr_stage := IDLE, adsr_increment := 0\<rparr>
                 else s\<lparr>adsr_level := l\<rparr>))
      in (adsr_level s', s'))"

text \<open>\<^verbatim>\<open>process(float input)\<close>: \<^verbatim>\<open>return input * process();\<close>\<close>

definition ADSR_process_input :: "real \<Rightarrow> ADSR \<Rightarrow> real \<times> ADSR" where
  "ADSR_process_input input s = (let (l, s') = ADSR_process s in (input * l, s'))"

definition ADSR_isActive :: "ADSR \<Rightarrow> bool" where
  "ADSR_isActive s = (adsr_stage s \<noteq> IDLE)"

definition ADSR_getStage :: "ADSR \<Rightarrow> Stage" where
  "ADSR_getStage s = adsr_stage s"

definition ADSR_getLevel :: "ADSR \<Rightarrow> real" where
  "ADSR_getLevel s = adsr_level s"

definition ADSR_reset :: "ADSR \<Rightarrow> ADSR" where
  "ADSR_reset s = s\<lparr>adsr_stage := IDLE, adsr_level := 0, adsr_target := 0, adsr_increment := 0\<rparr>"

definition ADSR_setSampleRate :: "real \<Rightarrow> ADSR \<Rightarrow> ADSR" where
  "ADSR_setSampleRate sample_rate s = ADSR_updateIncrements (s\<lparr>adsr_sample_rate := sample_rate\<rparr>)"


text \<open>
  Sequences of calls on one envelope. A call gives the envelope after it and, for
  \<^verbatim>\<open>process()\<close>, the level it returns; a run collects the returned levels in order.
\<close>

datatype ADSR_call =
    NoteOn | NoteOff | Reset | Process
  | SetADSR real real real real
  | SetAttack real | SetDecay real | SetSustain real | SetRelease real
  | SetSampleRate real

fun ADSR_do :: "ADSR_call \<Rightarrow> ADSR \<Rightarrow> real option \<times> ADSR" where
  "ADSR_do NoteOn s = (None, ADSR_noteOn s)"
| "ADSR_do NoteOff s = (None, ADSR_noteOff s)"
| "ADSR_do Reset s = (None, ADSR_reset s)"
| "ADSR_do Process s = (Some (fst (ADSR_process s)), snd (ADSR_process s))"
| "ADSR_do (SetADSR a d su r) s = (None, ADSR_setADSR a d su r s)"
| "ADSR_do (SetAttack a) s = (None, ADSR_setAttack a s)"
| "ADSR_do (SetDecay d) s = (None, ADSR_setDecay d s)"
| "ADSR_do (SetSustain su) s = (None, ADSR_setSustain su s)"
| "ADSR_do (SetRelease r) s = (None, ADSR_setRelease r s)"
| "ADSR_do (SetSampleRate sr) s = (None, ADSR_setSampleRate sr s)"

fun ADSR_run :: "ADSR_call list \<Rightarrow> ADSR \<Rightarrow> real list \<times> ADSR" where
  "ADSR_run [] s = ([], s)"
| "ADSR_run (c # cs) s =
     (let (out, s') = ADSR_do c s;
          (outs, s'') = ADSR_run cs s'
      in ((case out of None \<Rightarrow> outs | Some y \<Rightarrow> y # outs), s''))"

text \<open>A call keeps the sample rate positive.\<close>

fun ADSR_call_ok :: "ADSR_call \<Rightarrow> bool" where
  "ADSR_call_ok (SetSampleRate sr) = (0 < sr)"
| "ADSR_call_ok _ = True"

section \<open>envelope.h: AR\<close>

datatype AR_Stage = AR_IDLE | AR_ATTACK | AR_RELEASE

record AR =
  ar_stage :: AR_Stage
  ar_level :: real
  ar_increment :: real
  ar_attack_time :: real
  ar_release_time :: real
  ar_sample_rate :: real
  ar_attack_inc :: real
  ar_release_inc :: real

definition AR_init :: AR where
  "AR_init =
     \<lparr>ar_stage = AR_IDLE, ar_level = 0, ar_increment = 0,
      ar_attack_time = 0.01, ar_release_time = 0.3, ar_sample_rate = SAMPLE_RATE_F,
      ar_attack_inc = 0, ar_release_inc = 0\<rparr>"

definition AR_updateIncrements :: "AR \<Rightarrow> AR" where
  "AR_updateIncrements s =
     s\<lparr>ar_attack_inc := 1 / (ar_attack_time s * ar_sample_rate s),
       ar_release_inc := 1 / (ar_release_time s * ar_sample_rate s)\<rparr>"

definition AR_setAR :: "real \<Rightarrow> real \<Rightarrow> AR \<Rightarrow> AR" where
  "AR_setAR attack release s =
     AR_updateIncrements
       (s\<lparr>ar_attack_time := max 0.001 attack, ar_release_time := max 0.001 release\<rparr>)"

definition AR_trigger :: "AR \<Rightarrow> AR" where
  "AR_trigger s = s\<lparr>ar_stage := AR_ATTACK, ar_increment := ar_attack_inc s\<rparr>"

definition AR_process :: "AR \<Rightarrow> real \<times> AR" where
  "AR_process s =
     (let s' =
        (case ar_stage s of
           AR_IDLE \<Rightarrow> s\<lparr>ar_level := 0\<rparr>
         | AR_ATTACK \<Rightarrow>
             (let l = ar_level s + ar_increment s
              in if l \<ge> 1
                 then s\<lparr>ar_level := 1, ar_stage := AR_RELEASE,
                        ar_increment := - ar_release_inc s\<rparr>
                 else s\<lparr>ar_level := l\<rparr>)
         | AR_RELEASE \<Rightarrow>
             (let l = ar_level s + ar_increment s
              in if l \<le> 0
                 then s\<lparr>ar_level := 0, ar_stage := AR_IDLE, ar_increment := 0\<rparr>
                 else s\<lparr>ar_level := l\<rparr>))
      in (ar_level s', s'))"

definition AR_process_input :: "real \<Rightarrow> AR \<Rightarrow> real \<times> AR" where
  "AR_process_input input s = (let (l, s') = AR_process s in (input * l, s'))"

definition AR_isActive :: "AR \<Rightarrow> bool" where
  "AR_isActive s = (ar_stage s \<noteq> AR_IDLE)"

definition AR_getLevel :: "AR \<Rightarrow> real" where
  "AR_getLevel s = ar_level s"

definition AR_reset :: "AR \<Rightarrow> AR" where
  "AR_reset s = s\<lparr>ar_stage := AR_IDLE, ar_level := 0, ar_increment := 0\<rparr>"

definition AR_setSampleRate :: "real \<Rightarrow> AR \<Rightarrow> AR" where
  "AR_setSampleRate sample_rate s = AR_updateIncrements (s\<lparr>ar_sample_rate := sample_rate\<rparr>)"

datatype AR_call =
    Trigger | AR_Reset | AR_Process | SetAR real real | AR_SetSampleRate real

fun AR_do :: "AR_call \<Rightarrow> AR \<Rightarrow> real option \<times> AR" where
  "AR_do Trigger s = (None, AR_trigger s)"
| "AR_do AR_Reset s = (None, AR_reset s)"
| "AR_do AR_Process s = (Some (fst (AR_process s)), snd (AR_process s))"
| "AR_do (SetAR a r) s = (None, AR_setAR a r s)"
| "AR_do (AR_SetSampleRate sr) s = (None, AR_setSampleRate sr s)"

fun AR_run :: "AR_call list \<Rightarrow> AR \<Rightarrow> real list \<times> AR" where
  "AR_run [] s = ([], s)"
| "AR_run (c # cs) s =
     (let (out, s') = AR_do c s;
          (outs, s'') = AR_run cs s'
      in ((case out of None \<Rightarrow> outs | Some y \<Rightarrow> y # outs), s''))"

fun AR_call_ok :: "AR_call \<Rightarrow> bool" where
  "AR_call_ok (AR_SetSampleRate sr) = (0 < sr)"
| "AR_call_ok _ = True"



section \<open>audio\_output: sampleToPWM\<close>

text \<open>
  audio\_output.h: \<^verbatim>\<open>PWM_RESOLUTION = 12\<close>, \<^verbatim>\<open>PWM_MAX_VALUE = (1 << PWM_RESOLUTION) - 1\<close>,
  \<^verbatim>\<open>PWM_CENTER = PWM_MAX_VALUE / 2\<close>, all \<^verbatim>\<open>uint16_t\<close>.
\<close>

definition PWM_RESOLUTION :: nat where
  "PWM_RESOLUTION = 12"

definition PWM_MAX_VALUE :: "16 word" where
  "PWM_MAX_VALUE = push_bit PWM_RESOLUTION 1 - 1"

definition PWM_CENTER :: "16 word" where
  "PWM_CENTER = PWM_MAX_VALUE div 2"

text \<open>
  \<^verbatim>\<open>sampleToPWM\<close>: clamp the sample to \<open>[-1, 1]\<close>,
  \<^verbatim>\<open>scaled = (sample + 1.0f) * 0.5f\<close>,
  \<^verbatim>\<open>pwm_value = static_cast<uint16_t>(scaled * PWM_MAX_VALUE)\<close>, and clamp the code to
  \<open>[0, PWM_MAX_VALUE]\<close>.
\<close>

definition sampleToPWM :: "real \<Rightarrow> 16 word" where
  "sampleToPWM sample0 =
     (let sample = clamp sample0 (- 1) 1;
          scaled = (sample + 1) * 0.5;
          pwm_value = (word_of_int (float_to_int (scaled * real (unat PWM_MAX_VALUE))) :: 16 word)
      in clamp pwm_value 0 PWM_MAX_VALUE)"

section \<open>Invariants of the envelopes\<close>

text \<open>
  What every call keeps true of an ADSR envelope while the sample rate is positive:
  level and sustain level in \<open>[0, 1]\<close>, positive times, precomputed increments that
  are not negative, and a current increment whose sign fits the stage.
\<close>

definition ADSR_inv :: "ADSR \<Rightarrow> bool" where
  "ADSR_inv s \<longleftrightarrow>
     0 \<le> adsr_level s \<and> adsr_level s \<le> 1
     \<and> 0 \<le> adsr_sustain_level s \<and> adsr_sustain_level s \<le> 1
     \<and> 0 < adsr_sample_rate s
     \<and> 0 < adsr_attack_time s \<and> 0 < adsr_decay_time s \<and> 0 < adsr_release_time s
     \<and> 0 \<le> adsr_attack_inc s \<and> 0 \<le> adsr_decay_inc s \<and> 0 \<le> adsr_release_inc s
     \<and> (case adsr_stage s of
           ATTACK \<Rightarrow> 0 \<le> adsr_increment s
         | DECAY \<Rightarrow> adsr_increment s \<le> 0
         | RELEASE \<Rightarrow> adsr_increment s \<le> 0
         | _ \<Rightarrow> True)"

definition AR_inv :: "AR \<Rightarrow> bool" where
  "AR_inv s \<longleftrightarrow>
     0 \<le> ar_level s \<and> ar_level s \<le> 1
     \<and> 0 < ar_sample_rate s
     \<and> 0 < ar_attack_time s \<and> 0 < ar_release_time s
     \<and> 0 \<le> ar_attack_inc s \<and> 0 \<le> ar_release_inc s
     \<and> (case ar_stage s of
           AR_ATTACK \<Rightarrow> 0 \<le> ar_increment s
         | AR_RELEASE \<Rightarrow> ar_increment s \<le> 0
         | AR_IDLE \<Rightarrow> True)"


section \<open>Wavetable lookup\<close>

lemma length_makeWavetable: "length (makeWavetable SIZE generator) = SIZE"
  by (simp add: makeWavetable_def)

lemma unat_plus_size:
  "unat (i + of_nat N :: size_t) = (unat i + N) mod 2 ^ 32"
  by (simp add: unat_word_ariths unat_of_nat mod_add_right_eq)

lemma getSample_index_periodic:
  assumes "unat i + N < 2 ^ 32 \<or> N dvd 2 ^ 32"
  shows "unat (i + of_nat N :: size_t) mod N = unat i mod N"
  using assms
proof
  assume "unat i + N < 2 ^ 32"
  then have "(unat i + N) mod 2 ^ 32 = unat i + N" by simp
  then show ?thesis by (simp only: unat_plus_size mod_add_self2)
next
  assume "N dvd 2 ^ 32"
  then have "(unat i + N) mod 2 ^ 32 mod N = (unat i + N) mod N"
    by (rule mod_mod_cancel)
  then show ?thesis by (simp only: unat_plus_size mod_add_self2)
qed

lemma getSample_general:
  assumes "unat i + length t < 2 ^ 32 \<or> length t dvd 2 ^ 32"
  shows "getSample t (i + of_nat (length t)) = getSample t i"
  using getSample_index_periodic [OF assms] by (simp add: getSample_def)

text \<open>
  C5 (as the code has it). \<^verbatim>\<open>getSample(i + N)\<close> equals \<^verbatim>\<open>getSample(i)\<close> on every table
  of size \<open>N\<close>, built by \<^verbatim>\<open>makeWavetable\<close> or given as an array, when \<open>i + N\<close> does not
  overflow \<^verbatim>\<open>size_t\<close>, and for every \<open>i\<close> when \<open>N\<close> divides \<open>2 ^ 32\<close> (as the default
  1024 does).
\<close>

theorem getSample_periodic:
  assumes "unat i + N < 2 ^ 32 \<or> N dvd 2 ^ 32"
  shows "(length t = N \<longrightarrow> getSample t (i + of_nat N) = getSample t i)
         \<and> getSample (makeWavetable N generator) (i + of_nat N)
             = getSample (makeWavetable N generator) i"
proof -
  have "getSample t (i + of_nat N) = getSample t i" if "length t = N" for t
    using getSample_general [of i t] assms that by simp
  then show ?thesis by (simp add: length_makeWavetable)
qed

theorem getSample_periodic_witness:
  "(4 :: nat) dvd 2 ^ 32
   \<and> getSample [0, 16384, 32767, 49152] (4294967295 + of_nat 4) = Some 49152
   \<and> getSample [0, 16384, 32767, 49152] 4294967295 = Some 49152"
proof -
  have d: "(4 :: nat) dvd 2 ^ 32" by simp
  have l: "length [0, 16384, 32767, 49152 :: WavetableSample] = 4" by simp
  have a: "getSample [0, 16384, 32767, 49152] 4294967295 = Some 49152"
    by (simp add: getSample_def)
  have "getSample [0, 16384, 32767, 49152] (4294967295 + of_nat 4)
        = getSample [0, 16384, 32767, 49152] 4294967295"
    using getSample_periodic [of 4294967295 4 "[0, 16384, 32767, 49152]"] d l by blast
  then show ?thesis using d a by simp
qed

text \<open>
  The claim as written, for every index: on a table of size 3 the index
  \<open>2 ^ 32 - 1\<close> reads entry 0, and \<open>2 ^ 32 - 1 + 3\<close> wraps to 2 and reads entry 2.
\<close>

theorem getSample_periodic_counterexample:
  "getSample (makeWavetable 3 (\<lambda>i. if i = 0 then 1 else 0)) (4294967295 + of_nat 3)
   \<noteq> getSample (makeWavetable 3 (\<lambda>i. if i = 0 then 1 else 0)) 4294967295"
  by (simp add: getSample_def makeWavetable_def quantize_def clamp_def float_to_int_def
      SAMPLE_SCALE_def upt_rec)

lemma wrap_down_below: "index < SIZE \<Longrightarrow> wrap_down SIZE index = Some index"
  by (subst wrap_down.simps) simp

lemma wrap_up_nonneg: "0 \<le> index \<Longrightarrow> wrap_up SIZE index = Some index"
  by (subst wrap_up.simps) simp

lemma wrap_down_nat:
  assumes "0 < N"
  shows "wrap_down (real N) (real i) = Some (real (i mod N))"
proof (induction i rule: less_induct)
  case (less i)
  show ?case
  proof (cases "N \<le> i")
    case True
    then have "i - N < i" using assms by simp
    then have "wrap_down (real N) (real (i - N)) = Some (real ((i - N) mod N))"
      by (rule less.IH)
    moreover have "(i - N) mod N = i mod N"
      using True by (simp add: le_mod_geq)
    moreover have "real (i - N) = real i - real N"
      using True by simp
    ultimately have "wrap_down (real N) (real i - real N) = Some (real (i mod N))"
      by simp
    then show ?thesis
      using True by (subst wrap_down.simps) simp
  next
    case False
    then show ?thesis by (simp add: wrap_down_below)
  qed
qed

lemma float_to_int_of_nat: "float_to_int (real k) = int k"
  by (simp add: float_to_int_def)

lemma getInterpolated_nat:
  assumes "0 < length t"
  shows "getInterpolated t (real i)
         = Some (sample_to_float (t ! (i mod length t)) / SAMPLE_SCALE)"
proof -
  have m: "i mod length t < length t" using assms by simp
  have m2: "Suc (i mod length t) mod length t < length t" using assms by simp
  show ?thesis
    using m m2
    by (simp add: getInterpolated_def wrap_down_nat [OF assms] wrap_up_nonneg
        float_to_int_of_nat Let_def)
qed

text \<open>
  C6. The representable range: \<^verbatim>\<open>float\<close> holds every integer up to \<open>2 ^ 24\<close> exactly. For
  an index \<open>i\<close> below \<open>2 ^ 24\<close>, or equal to it on a table of at most \<open>2 ^ 24\<close> entries,
  the conversion of \<open>i\<close> to \<^verbatim>\<open>float\<close>, the comparison with \<^verbatim>\<open>SIZE\<close> and every
  \<^verbatim>\<open>index -= SIZE\<close> are exact. On a table of positive size, \<^verbatim>\<open>getInterpolated\<close> at such an
  integer index returns \<^verbatim>\<open>getSample(i)\<close> divided by \<^verbatim>\<open>SAMPLE_SCALE\<close>, so the two differ
  by at most \<open>1 / 32767\<close>.
\<close>

theorem getInterpolated_integer_index:
  assumes "0 < length t" and "unat i \<le> 2 ^ 24" and "unat i < 2 ^ 24 \<or> length t \<le> 2 ^ 24"
  shows "\<exists>s y. getSample t i = Some s
           \<and> getInterpolated t (real (unat i)) = Some y
           \<and> y = real_of_int (sint s) / 32767
           \<and> \<bar>y - real_of_int (sint s) / 32767\<bar> \<le> 1 / 32767"
proof -
  let ?s = "t ! (unat i mod length t)"
  let ?y = "real_of_int (sint ?s) / 32767"
  have "getSample t i = Some ?s"
    using assms(1) by (simp add: getSample_def)
  moreover have "getInterpolated t (real (unat i)) = Some ?y"
    unfolding getInterpolated_nat [OF assms(1)] SAMPLE_SCALE_def sample_to_float_def ..
  moreover have "\<bar>?y - real_of_int (sint ?s) / 32767\<bar> \<le> 1 / 32767"
    by simp
  ultimately show ?thesis by blast
qed

theorem getInterpolated_integer_index_witness:
  "0 < length [0, 16384, 32767, 49152 :: WavetableSample]
   \<and> unat (6 :: size_t) \<le> 2 ^ 24
   \<and> length [0, 16384, 32767, 49152 :: WavetableSample] \<le> 2 ^ 24
   \<and> getSample [0, 16384, 32767, 49152] 6 = Some 32767
   \<and> getInterpolated [0, 16384, 32767, 49152] 6 = Some 1"
proof -
  have h: "0 < length [0, 16384, 32767, 49152 :: WavetableSample]"
    "unat (6 :: size_t) \<le> 2 ^ 24"
    by simp_all
  have l: "length [0, 16384, 32767, 49152 :: WavetableSample] \<le> 2 ^ 24"
    by simp
  then have d: "unat (6 :: size_t) < 2 ^ 24
      \<or> length [0, 16384, 32767, 49152 :: WavetableSample] \<le> 2 ^ 24" ..
  have s: "getSample [0, 16384, 32767, 49152] 6 = Some 32767"
    by (simp add: getSample_def)
  have u: "real (unat (6 :: size_t)) = 6" by simp
  from getInterpolated_integer_index [OF h d] s u
  have "getInterpolated [0, 16384, 32767, 49152] 6 = Some 1" by auto
  then show ?thesis using h l s by blast
qed

section \<open>The first sample of the 440 Hz sine oscillator\<close>

lemma pi_ge_3: "3 \<le> pi"
  using sin_x_le_x [of "pi / 6"] by (simp add: sin_30)

lemma sin_cubic_lower:
  fixes x :: real
  assumes "0 \<le> x"
  shows "x - x ^ 3 / 6 \<le> sin x"
proof -
  have "\<bar>sin x - (\<Sum>m<3. sin_coeff m * x ^ m)\<bar> \<le> inverse (fact 3) * \<bar>x\<bar> ^ 3"
    by (rule Maclaurin_sin_bound)
  moreover have "(\<Sum>m<3. sin_coeff m * x ^ m) = x"
    by (simp add: sin_coeff_def numeral_3_eq_3)
  moreover have "inverse (fact 3) * \<bar>x\<bar> ^ 3 = x ^ 3 / 6"
    using assms by (simp add: fact_numeral)
  ultimately show ?thesis by linarith
qed

lemma sin_between:
  fixes a b x :: real
  assumes "0 \<le> a" and "a \<le> x" and "x \<le> b"
  shows "a - b ^ 3 / 6 \<le> sin x" and "sin x \<le> b"
proof -
  have x0: "0 \<le> x" using assms by linarith
  have "x ^ 3 \<le> b ^ 3" using assms(3) x0 by (rule power_mono)
  then show "a - b ^ 3 / 6 \<le> sin x"
    using sin_cubic_lower [OF x0] assms(2) by linarith
  show "sin x \<le> b" using sin_x_le_x [OF x0] assms(3) by linarith
qed

lemma sine_entry_20: "0.116 < sin (2 * pi * 20 / 1024)" "sin (2 * pi * 20 / 1024) < 0.165"
proof -
  have a: "15 / 128 \<le> 2 * pi * 20 / 1024" using pi_ge_3 by simp
  have b: "2 * pi * 20 / 1024 \<le> 20 / 128" using pi_less_4 by simp
  have "(15 / 128 :: real) - (20 / 128) ^ 3 / 6 \<le> sin (2 * pi * 20 / 1024)"
    by (rule sin_between(1) [OF _ a b]) simp
  moreover have "(0.116 :: real) < 15 / 128 - (20 / 128) ^ 3 / 6" by (simp add: power3_eq_cube)
  ultimately show "0.116 < sin (2 * pi * 20 / 1024)" by linarith
  have "sin (2 * pi * 20 / 1024) \<le> 20 / 128"
    by (rule sin_between(2) [OF _ a b]) simp
  then show "sin (2 * pi * 20 / 1024) < 0.165" by simp
qed

lemma sine_entry_21: "0.116 < sin (2 * pi * 21 / 1024)" "sin (2 * pi * 21 / 1024) < 0.165"
proof -
  have a: "63 / 512 \<le> 2 * pi * 21 / 1024" using pi_ge_3 by simp
  have b: "2 * pi * 21 / 1024 \<le> 84 / 512" using pi_less_4 by simp
  have "(63 / 512 :: real) - (84 / 512) ^ 3 / 6 \<le> sin (2 * pi * 21 / 1024)"
    by (rule sin_between(1) [OF _ a b]) simp
  moreover have "(0.116 :: real) < 63 / 512 - (84 / 512) ^ 3 / 6" by (simp add: power3_eq_cube)
  ultimately show "0.116 < sin (2 * pi * 21 / 1024)" by linarith
  have "sin (2 * pi * 21 / 1024) \<le> 84 / 512"
    by (rule sin_between(2) [OF _ a b]) simp
  then show "sin (2 * pi * 21 / 1024) < 0.165" by simp
qed

lemma sint_quantize:
  assumes "0 \<le> v" and "v \<le> 1"
  shows "sint (quantize v) = \<lfloor>v * 32767\<rfloor>"
proof -
  have lo: "0 \<le> \<lfloor>v * 32767\<rfloor>" using assms by simp
  have "v * 32767 \<le> 32767" using assms by simp
  then have hi: "\<lfloor>v * 32767\<rfloor> \<le> 32767" by (simp add: floor_le_iff)
  have "quantize v = word_of_int \<lfloor>v * 32767\<rfloor>"
    using assms by (simp add: quantize_def clamp_def float_to_int_def SAMPLE_SCALE_def)
  moreover have "signed_take_bit 15 \<lfloor>v * 32767\<rfloor> = \<lfloor>v * 32767\<rfloor>"
    using lo hi by (intro signed_take_bit_int_eq_self) simp_all
  ultimately show ?thesis by (simp add: sint_sbintrunc')
qed

lemma sample_between:
  assumes "0.116 < v" and "v < 0.165"
  shows "3800 \<le> sint (quantize v)" and "sint (quantize v) \<le> 5407"
proof -
  have e: "sint (quantize v) = \<lfloor>v * 32767\<rfloor>"
    using assms by (intro sint_quantize) simp_all
  have "(3800 :: real) \<le> v * 32767" using assms by simp
  then show "3800 \<le> sint (quantize v)" unfolding e by (simp add: le_floor_iff)
  have "v * 32767 < 5407" using assms by simp
  then have "\<lfloor>v * 32767\<rfloor> < 5407" by (simp add: floor_less_iff)
  then show "sint (quantize v) \<le> 5407" unfolding e by simp
qed

lemma makeWavetable_nth:
  "i < SIZE \<Longrightarrow> makeWavetable SIZE generator ! i = quantize (generator i)"
  by (simp add: makeWavetable_def)

lemma length_SINE: "length SINE = 1024"
  by (simp add: SINE_def makeSineTable_def length_makeWavetable BASIC_TABLE_SIZE_def)

lemma SINE_nth: "i < 1024 \<Longrightarrow> SINE ! i = quantize (sin (2 * pi * real i / 1024))"
  by (simp add: SINE_def makeSineTable_def makeWavetable_nth BASIC_TABLE_SIZE_def)

lemma sample_to_float_between:
  assumes "3800 \<le> sint s" and "sint s \<le> 5407"
  shows "3800 \<le> sample_to_float s" and "sample_to_float s \<le> 5407"
proof -
  have "real_of_int 3800 \<le> real_of_int (sint s)"
    using assms(1) by (rule of_int_le_iff [THEN iffD2])
  then show "3800 \<le> sample_to_float s" by (simp add: sample_to_float_def)
  have "real_of_int (sint s) \<le> real_of_int 5407"
    using assms(2) by (rule of_int_le_iff [THEN iffD2])
  then show "sample_to_float s \<le> 5407" by (simp add: sample_to_float_def)
qed

lemma SINE_20: "3800 \<le> sample_to_float (SINE ! 20)" "sample_to_float (SINE ! 20) \<le> 5407"
proof -
  have e: "SINE ! 20 = quantize (sin (2 * pi * 20 / 1024))"
    using SINE_nth [of 20] by simp
  show "3800 \<le> sample_to_float (SINE ! 20)" "sample_to_float (SINE ! 20) \<le> 5407"
    unfolding e by (rule sample_to_float_between [OF sample_between [OF sine_entry_20]])+
qed

lemma SINE_21: "3800 \<le> sample_to_float (SINE ! 21)" "sample_to_float (SINE ! 21) \<le> 5407"
proof -
  have e: "SINE ! 21 = quantize (sin (2 * pi * 21 / 1024))"
    using SINE_nth [of 21] by simp
  show "3800 \<le> sample_to_float (SINE ! 21)" "sample_to_float (SINE ! 21) \<le> 5407"
    unfolding e by (rule sample_to_float_between [OF sample_between [OF sine_entry_21]])+
qed

lemma sine_440_tick:
  "PhaseAccumulator_tick (osc_phase sine_440)
   = (44 / 2205, (osc_phase sine_440)\<lparr>pa_phase := 44 / 2205\<rparr>)"
  by (simp add: sine_440_def WavetableOscillator_reset_def WavetableOscillator_setAmplitude_def
      WavetableOscillator_setFrequency_def WavetableOscillator_new_def PhaseAccumulator_reset_def
      PhaseAccumulator_setFrequency_def PhaseAccumulator_init_def PhaseAccumulator_tick_def
      SAMPLE_RATE_F_def Let_def)

lemma sine_440_fields:
  "osc_wavetable sine_440 = SINE" "osc_amplitude sine_440 = 1"
  by (simp_all add: sine_440_def WavetableOscillator_reset_def WavetableOscillator_setAmplitude_def
      WavetableOscillator_setFrequency_def WavetableOscillator_new_def clamp_def)

lemma SINE_interpolated_first:
  "getInterpolated SINE (45056 / 2205)
   = Some ((sample_to_float (SINE ! 20)
            + 956 / 2205 * (sample_to_float (SINE ! 21) - sample_to_float (SINE ! 20)))
           / 32767)"
proof -
  have f: "float_to_int (45056 / 2205) = 20" by (simp add: float_to_int_def)
  show ?thesis
    by (simp add: getInterpolated_def length_SINE wrap_down_below wrap_up_nonneg f Let_def
        SAMPLE_SCALE_def)
qed


lemma sine_440_process:
  "WavetableOscillator_process sine_440
   = Some ((sample_to_float (SINE ! 20)
            + 956 / 2205 * (sample_to_float (SINE ! 21) - sample_to_float (SINE ! 20)))
           / 32767,
           sine_440\<lparr>osc_phase := (osc_phase sine_440)\<lparr>pa_phase := 44 / 2205\<rparr>\<rparr>)"
  by (simp add: WavetableOscillator_process_def sine_440_tick sine_440_fields length_SINE
      SINE_interpolated_first)

lemma interpolation_between:
  fixes s1 s2 :: real
  assumes "3800 \<le> s1" "s1 \<le> 5407" "3800 \<le> s2" "s2 \<le> 5407"
  shows "0.11 < (s1 + 956 / 2205 * (s2 - s1)) / 32767"
    and "(s1 + 956 / 2205 * (s2 - s1)) / 32767 < 0.17"
proof -
  have e: "s1 + 956 / 2205 * (s2 - s1) = 1249 / 2205 * s1 + 956 / 2205 * s2"
    by argo
  have "3800 \<le> 1249 / 2205 * s1 + 956 / 2205 * s2" using assms by simp
  then show "0.11 < (s1 + 956 / 2205 * (s2 - s1)) / 32767" unfolding e by simp
  have "1249 / 2205 * s1 + 956 / 2205 * s2 \<le> 5407" using assms by simp
  then show "(s1 + 956 / 2205 * (s2 - s1)) / 32767 < 0.17" unfolding e by simp
qed

lemma sine_440_first_bounds:
  "0.11 < (sample_to_float (SINE ! 20)
           + 956 / 2205 * (sample_to_float (SINE ! 21) - sample_to_float (SINE ! 20)))
          / 32767"
  "(sample_to_float (SINE ! 20)
    + 956 / 2205 * (sample_to_float (SINE ! 21) - sample_to_float (SINE ! 20)))
   / 32767 < 0.17"
proof -
  note b = SINE_20 SINE_21
  show "0.11 < (sample_to_float (SINE ! 20)
           + 956 / 2205 * (sample_to_float (SINE ! 21) - sample_to_float (SINE ! 20)))
          / 32767"
    by (rule interpolation_between(1) [OF b])
  show "(sample_to_float (SINE ! 20)
    + 956 / 2205 * (sample_to_float (SINE ! 21) - sample_to_float (SINE ! 20)))
   / 32767 < 0.17"
    by (rule interpolation_between(2) [OF b])
qed

lemma SINE_at_phase_zero: "getInterpolated SINE 0 = Some 0"
proof -
  have "SINE ! 0 = quantize 0" using SINE_nth [of 0] by simp
  also have "\<dots> = 0"
    by (simp add: quantize_def clamp_def float_to_int_def)
  finally have z: "SINE ! 0 = 0" .
  have "getInterpolated SINE (real 0) = Some (sample_to_float (SINE ! (0 mod length SINE)) / SAMPLE_SCALE)"
    by (rule getInterpolated_nat) (simp add: length_SINE)
  then show ?thesis by (simp add: z length_SINE sample_to_float_def)
qed

text \<open>
  C2 (as the code has it). \<^verbatim>\<open>process()\<close> advances the phase before it reads the table:
  on the scenario the first call reads at phase \<open>440 / 22050\<close>, table index
  \<open>45056 / 2205\<close> between entries 20 and 21, and returns a value between 0.11 and
  0.17. The table read at phase 0 is exactly 0.
\<close>

theorem sine_440_first_sample:
  "\<exists>y osc'. WavetableOscillator_process sine_440 = Some (y, osc')
      \<and> pa_phase (osc_phase osc') = 440 / 22050
      \<and> y = (sample_to_float (SINE ! 20)
              + 956 / 2205 * (sample_to_float (SINE ! 21) - sample_to_float (SINE ! 20)))
             / 32767
      \<and> 0.11 < y \<and> y < 0.17
      \<and> getInterpolated SINE 0 = Some 0"
proof (intro exI conjI)
  show "WavetableOscillator_process sine_440
   = Some ((sample_to_float (SINE ! 20)
            + 956 / 2205 * (sample_to_float (SINE ! 21) - sample_to_float (SINE ! 20)))
           / 32767,
           sine_440\<lparr>osc_phase := (osc_phase sine_440)\<lparr>pa_phase := 44 / 2205\<rparr>\<rparr>)"
    by (rule sine_440_process)
  show "pa_phase (osc_phase (sine_440\<lparr>osc_phase := (osc_phase sine_440)\<lparr>pa_phase := 44 / 2205\<rparr>\<rparr>))
        = 440 / 22050"
    by simp
  show "getInterpolated SINE 0 = Some 0"
    by (rule SINE_at_phase_zero)
qed (rule refl sine_440_first_bounds)+

text \<open>The claim as written: the first sample is not within \<open>1 / 32767\<close> of 0.\<close>

theorem sine_440_first_sample_counterexample:
  "WavetableOscillator_process sine_440 \<noteq> None
   \<and> \<bar>fst (the (WavetableOscillator_process sine_440)) - 0\<bar> > 1 / 32767"
proof -
  let ?y = "(sample_to_float (SINE ! 20)
              + 956 / 2205 * (sample_to_float (SINE ! 21) - sample_to_float (SINE ! 20)))
             / 32767"
  have "fst (the (WavetableOscillator_process sine_440)) = ?y"
    by (simp add: sine_440_process)
  moreover have "(1 :: real) / 32767 < 0.11" by simp
  ultimately have "\<bar>fst (the (WavetableOscillator_process sine_440)) - 0\<bar> > 1 / 32767"
    using sine_440_first_bounds(1) by linarith
  then show ?thesis by (simp add: sine_440_process)
qed

section \<open>The frequency setter and the phase range\<close>

lemma PhaseAccumulator_frequency_roundtrip:
  "pa_sample_rate p \<noteq> 0 \<Longrightarrow>
   PhaseAccumulator_getCurrentFrequency (PhaseAccumulator_setFrequency f p) = f"
  by (simp add: PhaseAccumulator_getCurrentFrequency_def PhaseAccumulator_setFrequency_def)

text \<open>
  C1 at \<^verbatim>\<open>osc.setFrequency(-100.0f)\<close>: on a new oscillator the stored increment is
  \<open>-100 / 22050\<close> and \<^verbatim>\<open>getFrequency()\<close> gives back \<open>-100\<close>; the same holds for every
  frequency, so nothing is clamped.
\<close>

theorem WavetableOscillator_setFrequency_not_clamped:
  "pa_increment (osc_phase (WavetableOscillator_setFrequency (- 100) (WavetableOscillator_new t)))
     = - 100 / 22050
   \<and> WavetableOscillator_getFrequency
         (WavetableOscillator_setFrequency (- 100) (WavetableOscillator_new t)) = - 100
   \<and> (\<forall>f. WavetableOscillator_getFrequency
               (WavetableOscillator_setFrequency f (WavetableOscillator_new t)) = f)"
  by (simp add: WavetableOscillator_getFrequency_def WavetableOscillator_setFrequency_def
      WavetableOscillator_new_def PhaseAccumulator_getCurrentFrequency_def
      PhaseAccumulator_setFrequency_def PhaseAccumulator_init_def SAMPLE_RATE_F_def)

text \<open>
  C3 at \<^verbatim>\<open>setFrequency(-100.0f)\<close> and at \<^verbatim>\<open>setFrequency(44100.0f)\<close>, each followed by one
  \<^verbatim>\<open>tick()\<close> on a new accumulator: the returned and stored phase is \<open>-2 / 441\<close> in the
  first case and \<open>1\<close> in the second, both outside \<open>[0, 1)\<close>.
\<close>

theorem PhaseAccumulator_tick_leaves_unit_interval:
  "PhaseAccumulator_tick (PhaseAccumulator_setFrequency (- 100) PhaseAccumulator_init)
     = (- 2 / 441,
        \<lparr>pa_phase = - 2 / 441, pa_increment = - 2 / 441, pa_sample_rate = 22050\<rparr>)
   \<and> PhaseAccumulator_tick (PhaseAccumulator_setFrequency 44100 PhaseAccumulator_init)
     = (1, \<lparr>pa_phase = 1, pa_increment = 2, pa_sample_rate = 22050\<rparr>)"
  by (simp add: PhaseAccumulator_tick_def PhaseAccumulator_setFrequency_def
      PhaseAccumulator_init_def SAMPLE_RATE_F_def Let_def)

text \<open>
  With an increment in \<open>[0, 1]\<close>, that is a frequency between 0 and the sample rate,
  \<^verbatim>\<open>tick()\<close> keeps the phase in \<open>[0, 1)\<close>, and \<^verbatim>\<open>setPhase\<close> always stores a phase there.
\<close>

lemma PhaseAccumulator_tick_in_range:
  assumes "0 \<le> pa_phase p" "pa_phase p < 1" "0 \<le> pa_increment p" "pa_increment p \<le> 1"
  shows "0 \<le> fst (PhaseAccumulator_tick p) \<and> fst (PhaseAccumulator_tick p) < 1
         \<and> pa_phase (snd (PhaseAccumulator_tick p)) = fst (PhaseAccumulator_tick p)
         \<and> pa_increment (snd (PhaseAccumulator_tick p)) = pa_increment p"
  using assms by (simp add: PhaseAccumulator_tick_def Let_def)

lemma phase_wrap_down_less: "phase_wrap_down x < 1"
  by (induction x rule: phase_wrap_down.induct) (subst phase_wrap_down.simps, simp)

lemma phase_wrap_down_nonneg: "0 \<le> x \<Longrightarrow> 0 \<le> phase_wrap_down x"
  by (induction x rule: phase_wrap_down.induct) (subst phase_wrap_down.simps, simp)

lemma phase_wrap_up_nonneg: "0 \<le> phase_wrap_up x"
  by (induction x rule: phase_wrap_up.induct) (subst phase_wrap_up.simps, simp)

lemma phase_wrap_up_less: "x < 1 \<Longrightarrow> phase_wrap_up x < 1"
  by (induction x rule: phase_wrap_up.induct) (subst phase_wrap_up.simps, simp)

lemma PhaseAccumulator_setPhase_in_range:
  "0 \<le> pa_phase (PhaseAccumulator_setPhase phase p)
   \<and> pa_phase (PhaseAccumulator_setPhase phase p) < 1"
  by (simp add: PhaseAccumulator_setPhase_def phase_wrap_up_nonneg phase_wrap_up_less
      phase_wrap_down_less)

section \<open>The one-pole filter\<close>

text \<open>
  C7. From any filter state, after any cutoff setting and for any input, the high-pass
  output is the input minus the low-pass output of that same call: the low-pass value
  \<^verbatim>\<open>processHPF\<close> computes is the one \<^verbatim>\<open>processLPF\<close> returns from that state, it is the
  value left in \<^verbatim>\<open>y1_\<close>, both calls leave the same filter state, and the two outputs
  sum to the input.
\<close>

theorem OnePole_lowpass_highpass_sum:
  "fst (OnePole_processLPF x (OnePole_setCutoff cutoff f))
     + fst (OnePole_processHPF x (OnePole_setCutoff cutoff f)) = x
   \<and> fst (OnePole_processLPF x f) + fst (OnePole_processHPF x f) = x
   \<and> fst (OnePole_processHPF x f) = x - op_y1 (snd (OnePole_processHPF x f))
   \<and> op_y1 (snd (OnePole_processHPF x f)) = fst (OnePole_processLPF x f)
   \<and> snd (OnePole_processHPF x f) = snd (OnePole_processLPF x f)"
  by (simp add: OnePole_processHPF_def OnePole_processLPF_def Let_def)

section \<open>The setters that clamp\<close>

lemma clamp_in_range:
  fixes v lo hi :: "'a::linorder"
  assumes "lo \<le> hi"
  shows "lo \<le> clamp v lo hi \<and> clamp v lo hi \<le> hi"
  using assms by (auto simp: clamp_def)

text \<open>
  Amplitudes, cutoffs, resonance, sustain level and envelope times are stored clamped.
  The cutoff ranges need a sample rate for which they are not empty.
\<close>

lemma amplitude_setters_clamp:
  "0 \<le> osc_amplitude (WavetableOscillator_setAmplitude a osc)
   \<and> osc_amplitude (WavetableOscillator_setAmplitude a osc) \<le> 1
   \<and> 0 \<le> ng_amplitude (NoiseGenerator_setAmplitude a g)
   \<and> ng_amplitude (NoiseGenerator_setAmplitude a g) \<le> 1"
  by (simp add: WavetableOscillator_setAmplitude_def NoiseGenerator_setAmplitude_def clamp_def)

lemma OnePole_setCutoff_clamps:
  assumes "1 \<le> op_sample_rate f * 0.49"
  shows "1 \<le> op_cutoff (OnePole_setCutoff c f)
         \<and> op_cutoff (OnePole_setCutoff c f) \<le> op_sample_rate f * 0.49"
  using clamp_in_range [OF assms, of c]
  by (simp add: OnePole_setCutoff_def OnePole_updateCoefficients_def Let_def)

lemma StateVariable_setParams_clamps:
  assumes "1 \<le> svf_sample_rate s * 0.45"
  shows "1 \<le> svf_cutoff (StateVariable_setParams c r s)
         \<and> svf_cutoff (StateVariable_setParams c r s) \<le> svf_sample_rate s * 0.45
         \<and> 0.1 \<le> svf_resonance (StateVariable_setParams c r s)
         \<and> svf_resonance (StateVariable_setParams c r s) \<le> 10"
proof -
  have "(0.1 :: real) \<le> clamp r 0.1 10 \<and> clamp r 0.1 10 \<le> 10"
    by (rule clamp_in_range) simp
  then show ?thesis
    using clamp_in_range [OF assms, of c]
    by (simp add: StateVariable_setParams_def StateVariable_updateCoefficients_def Let_def)
qed

lemma envelope_setters_clamp:
  "0.001 \<le> adsr_attack_time (ADSR_setADSR a d su r s)
   \<and> 0.001 \<le> adsr_decay_time (ADSR_setADSR a d su r s)
   \<and> 0 \<le> adsr_sustain_level (ADSR_setADSR a d su r s)
   \<and> adsr_sustain_level (ADSR_setADSR a d su r s) \<le> 1
   \<and> 0.001 \<le> adsr_release_time (ADSR_setADSR a d su r s)
   \<and> 0.001 \<le> ar_attack_time (AR_setAR a r t)
   \<and> 0.001 \<le> ar_release_time (AR_setAR a r t)"
  by (simp add: ADSR_setADSR_def ADSR_updateIncrements_def AR_setAR_def AR_updateIncrements_def
      clamp_def)

section \<open>The envelope level stays in the unit interval\<close>

lemma ADSR_inv_init: "ADSR_inv ADSR_init"
  by (simp add: ADSR_inv_def ADSR_init_def SAMPLE_RATE_F_def)

lemma ADSR_inv_setADSR:
  assumes "ADSR_inv s"
  shows "ADSR_inv (ADSR_setADSR a d su r s)"
proof -
  have "0 \<le> clamp su 0 1" "clamp su 0 1 \<le> 1" by (simp_all add: clamp_def)
  moreover have "(0 :: real) < max 0.001 a" "(0 :: real) < max 0.001 d" "(0 :: real) < max 0.001 r"
    by (simp_all add: max_def)
  ultimately show ?thesis
    using assms
    by (simp add: ADSR_inv_def ADSR_setADSR_def ADSR_updateIncrements_def split: Stage.splits)
qed

lemma ADSR_inv_setSampleRate:
  assumes "ADSR_inv s" and "0 < sr"
  shows "ADSR_inv (ADSR_setSampleRate sr s)"
  using assms
  by (simp add: ADSR_inv_def ADSR_setSampleRate_def ADSR_updateIncrements_def split: Stage.splits)

lemma ADSR_inv_noteOn: "ADSR_inv s \<Longrightarrow> ADSR_inv (ADSR_noteOn s)"
  by (simp add: ADSR_inv_def ADSR_noteOn_def)

lemma ADSR_inv_noteOff: "ADSR_inv s \<Longrightarrow> ADSR_inv (ADSR_noteOff s)"
  by (simp add: ADSR_inv_def ADSR_noteOff_def)

lemma ADSR_inv_reset: "ADSR_inv s \<Longrightarrow> ADSR_inv (ADSR_reset s)"
  by (simp add: ADSR_inv_def ADSR_reset_def)

lemma ADSR_inv_process:
  assumes "ADSR_inv s"
  shows "ADSR_inv (snd (ADSR_process s))"
  using assms
  by (cases "adsr_stage s") (auto simp: ADSR_inv_def ADSR_process_def Let_def)

lemma ADSR_process_fst: "fst (ADSR_process s) = adsr_level (snd (ADSR_process s))"
  by (simp add: ADSR_process_def Let_def)

lemma ADSR_inv_level: "ADSR_inv s \<Longrightarrow> 0 \<le> adsr_level s \<and> adsr_level s \<le> 1"
  by (simp add: ADSR_inv_def)

lemma ADSR_inv_do:
  assumes "ADSR_inv s" and "ADSR_call_ok c"
  shows "ADSR_inv (snd (ADSR_do c s))"
  using assms
  by (cases c)
    (simp_all add: ADSR_inv_noteOn ADSR_inv_noteOff ADSR_inv_reset ADSR_inv_process
      ADSR_inv_setADSR ADSR_inv_setSampleRate ADSR_setAttack_def ADSR_setDecay_def
      ADSR_setSustain_def ADSR_setRelease_def)

lemma ADSR_do_output:
  assumes "ADSR_inv s" and "fst (ADSR_do c s) = Some y"
  shows "0 \<le> y \<and> y \<le> 1"
proof (cases c)
  case Process
  then have "y = adsr_level (snd (ADSR_process s))"
    using assms(2) by (simp add: ADSR_process_fst)
  then show ?thesis
    using ADSR_inv_level [OF ADSR_inv_process [OF assms(1)]] by simp
qed (use assms(2) in simp_all)

lemma ADSR_run_inv:
  assumes "ADSR_inv s" and "list_all ADSR_call_ok cs"
  shows "ADSR_inv (snd (ADSR_run cs s)) \<and> list_all (\<lambda>y. 0 \<le> y \<and> y \<le> 1) (fst (ADSR_run cs s))"
  using assms
proof (induction cs arbitrary: s)
  case Nil
  then show ?case by simp
next
  case (Cons c cs)
  have i: "ADSR_inv (snd (ADSR_do c s))"
    using Cons.prems by (simp add: ADSR_inv_do)
  have r: "ADSR_inv (snd (ADSR_run cs (snd (ADSR_do c s))))
           \<and> list_all (\<lambda>y. 0 \<le> y \<and> y \<le> 1) (fst (ADSR_run cs (snd (ADSR_do c s))))"
    using Cons.prems by (intro Cons.IH [OF i]) simp
  show ?case
  proof (cases "fst (ADSR_do c s)")
    case None
    then show ?thesis using r by (simp add: split_beta Let_def)
  next
    case (Some y)
    then have "0 \<le> y \<and> y \<le> 1" using ADSR_do_output [OF Cons.prems(1)] by blast
    then show ?thesis using r Some by (simp add: split_beta Let_def)
  qed
qed

lemma AR_inv_init: "AR_inv AR_init"
  by (simp add: AR_inv_def AR_init_def SAMPLE_RATE_F_def)

lemma AR_inv_setAR:
  assumes "AR_inv s"
  shows "AR_inv (AR_setAR a r s)"
proof -
  have "(0 :: real) < max 0.001 a" "(0 :: real) < max 0.001 r"
    by (simp_all add: max_def)
  then show ?thesis
    using assms
    by (simp add: AR_inv_def AR_setAR_def AR_updateIncrements_def split: AR_Stage.splits)
qed

lemma AR_inv_setSampleRate:
  assumes "AR_inv s" and "0 < sr"
  shows "AR_inv (AR_setSampleRate sr s)"
  using assms
  by (simp add: AR_inv_def AR_setSampleRate_def AR_updateIncrements_def split: AR_Stage.splits)

lemma AR_inv_trigger: "AR_inv s \<Longrightarrow> AR_inv (AR_trigger s)"
  by (simp add: AR_inv_def AR_trigger_def)

lemma AR_inv_reset: "AR_inv s \<Longrightarrow> AR_inv (AR_reset s)"
  by (simp add: AR_inv_def AR_reset_def)

lemma AR_inv_process:
  assumes "AR_inv s"
  shows "AR_inv (snd (AR_process s))"
  using assms
  by (cases "ar_stage s") (auto simp: AR_inv_def AR_process_def Let_def)

lemma AR_process_fst: "fst (AR_process s) = ar_level (snd (AR_process s))"
  by (simp add: AR_process_def Let_def)

lemma AR_inv_level: "AR_inv s \<Longrightarrow> 0 \<le> ar_level s \<and> ar_level s \<le> 1"
  by (simp add: AR_inv_def)

lemma AR_inv_do:
  assumes "AR_inv s" and "AR_call_ok c"
  shows "AR_inv (snd (AR_do c s))"
  using assms
  by (cases c)
    (simp_all add: AR_inv_trigger AR_inv_reset AR_inv_process AR_inv_setAR AR_inv_setSampleRate)

lemma AR_do_output:
  assumes "AR_inv s" and "fst (AR_do c s) = Some y"
  shows "0 \<le> y \<and> y \<le> 1"
proof (cases c)
  case AR_Process
  then have "y = ar_level (snd (AR_process s))"
    using assms(2) by (simp add: AR_process_fst)
  then show ?thesis
    using AR_inv_level [OF AR_inv_process [OF assms(1)]] by simp
qed (use assms(2) in simp_all)

lemma AR_run_inv:
  assumes "AR_inv s" and "list_all AR_call_ok cs"
  shows "AR_inv (snd (AR_run cs s)) \<and> list_all (\<lambda>y. 0 \<le> y \<and> y \<le> 1) (fst (AR_run cs s))"
  using assms
proof (induction cs arbitrary: s)
  case Nil
  then show ?case by simp
next
  case (Cons c cs)
  have i: "AR_inv (snd (AR_do c s))"
    using Cons.prems by (simp add: AR_inv_do)
  have r: "AR_inv (snd (AR_run cs (snd (AR_do c s))))
           \<and> list_all (\<lambda>y. 0 \<le> y \<and> y \<le> 1) (fst (AR_run cs (snd (AR_do c s))))"
    using Cons.prems by (intro Cons.IH [OF i]) simp
  show ?case
  proof (cases "fst (AR_do c s)")
    case None
    then show ?thesis using r by (simp add: split_beta Let_def)
  next
    case (Some y)
    then have "0 \<le> y \<and> y \<le> 1" using AR_do_output [OF Cons.prems(1)] by blast
    then show ?thesis using r Some by (simp add: split_beta Let_def)
  qed
qed


text \<open>
  C10. From the initial envelope, along every sequence of calls whose sample rates are
  positive, every level returned by \<^verbatim>\<open>process()\<close> and the level read by \<^verbatim>\<open>getLevel()\<close>
  after the sequence lie in \<open>[0, 1]\<close>; for the ADSR and for the AR envelope. Every
  prefix of a sequence is a sequence, so this holds after every call.
\<close>

theorem envelope_level_in_unit_interval:
  assumes "list_all ADSR_call_ok cs" and "list_all AR_call_ok ds"
  shows "list_all (\<lambda>y. 0 \<le> y \<and> y \<le> 1) (fst (ADSR_run cs ADSR_init))
         \<and> 0 \<le> ADSR_getLevel (snd (ADSR_run cs ADSR_init))
         \<and> ADSR_getLevel (snd (ADSR_run cs ADSR_init)) \<le> 1
         \<and> list_all (\<lambda>y. 0 \<le> y \<and> y \<le> 1) (fst (AR_run ds AR_init))
         \<and> 0 \<le> AR_getLevel (snd (AR_run ds AR_init))
         \<and> AR_getLevel (snd (AR_run ds AR_init)) \<le> 1"
proof -
  note a = ADSR_run_inv [OF ADSR_inv_init assms(1)]
  note b = AR_run_inv [OF AR_inv_init assms(2)]
  from a have "0 \<le> ADSR_getLevel (snd (ADSR_run cs ADSR_init))
      \<and> ADSR_getLevel (snd (ADSR_run cs ADSR_init)) \<le> 1"
    unfolding ADSR_getLevel_def by (intro ADSR_inv_level) simp
  moreover from b have "0 \<le> AR_getLevel (snd (AR_run ds AR_init))
      \<and> AR_getLevel (snd (AR_run ds AR_init)) \<le> 1"
    unfolding AR_getLevel_def by (intro AR_inv_level) simp
  ultimately show ?thesis using a b by simp
qed

theorem envelope_level_in_unit_interval_witness:
  "list_all ADSR_call_ok [SetSampleRate 44100, SetADSR 0.01 0.1 0.5 0.3, NoteOn, Process]
   \<and> list_all AR_call_ok [AR_SetSampleRate 44100, SetAR 0.01 0.3, Trigger, AR_Process]
   \<and> fst (ADSR_run [SetSampleRate 44100, SetADSR 0.01 0.1 0.5 0.3, NoteOn, Process] ADSR_init)
       = [1 / 441]
   \<and> fst (AR_run [AR_SetSampleRate 44100, SetAR 0.01 0.3, Trigger, AR_Process] AR_init)
       = [1 / 441]
   \<and> 0 \<le> ADSR_getLevel
        (snd (ADSR_run [SetSampleRate 44100, SetADSR 0.01 0.1 0.5 0.3, NoteOn, Process] ADSR_init))
   \<and> ADSR_getLevel
        (snd (ADSR_run [SetSampleRate 44100, SetADSR 0.01 0.1 0.5 0.3, NoteOn, Process] ADSR_init))
       \<le> 1
   \<and> 0 \<le> AR_getLevel
        (snd (AR_run [AR_SetSampleRate 44100, SetAR 0.01 0.3, Trigger, AR_Process] AR_init))
   \<and> AR_getLevel
        (snd (AR_run [AR_SetSampleRate 44100, SetAR 0.01 0.3, Trigger, AR_Process] AR_init))
       \<le> 1"
proof -
  have c: "list_all ADSR_call_ok [SetSampleRate 44100, SetADSR 0.01 0.1 0.5 0.3, NoteOn, Process]"
    by simp
  have d: "list_all AR_call_ok [AR_SetSampleRate 44100, SetAR 0.01 0.3, Trigger, AR_Process]"
    by simp
  have e: "fst (ADSR_run [SetSampleRate 44100, SetADSR 0.01 0.1 0.5 0.3, NoteOn, Process] ADSR_init)
       = [1 / 441]"
    by (simp add: ADSR_init_def ADSR_setSampleRate_def ADSR_setADSR_def ADSR_updateIncrements_def
        ADSR_noteOn_def ADSR_process_def clamp_def Let_def)
  have f: "fst (AR_run [AR_SetSampleRate 44100, SetAR 0.01 0.3, Trigger, AR_Process] AR_init)
       = [1 / 441]"
    by (simp add: AR_init_def AR_setSampleRate_def AR_setAR_def AR_updateIncrements_def
        AR_trigger_def AR_process_def Let_def)
  from envelope_level_in_unit_interval [OF c d] c d e f show ?thesis by blast
qed

section \<open>Note off and release\<close>

















section \<open>The sample to PWM code conversion\<close>

lemma PWM_MAX_VALUE_eq: "PWM_MAX_VALUE = 4095"
  by (simp add: PWM_MAX_VALUE_def PWM_RESOLUTION_def)

lemma PWM_MAX_VALUE_real: "real (unat PWM_MAX_VALUE) = 4095"
  by (simp add: PWM_MAX_VALUE_eq)

lemma clamp_code_id:
  fixes w :: "16 word"
  assumes "w \<le> PWM_MAX_VALUE"
  shows "clamp w 0 PWM_MAX_VALUE = w"
  using assms by (auto simp: clamp_def)

lemma sampleToPWM_floor:
  "int (unat (sampleToPWM s)) = \<lfloor>(clamp s (- 1) 1 + 1) / 2 * 4095\<rfloor>"
proof -
  define c where "c = clamp s (- 1) 1"
  have c: "- 1 \<le> c" "c \<le> 1" by (simp_all add: c_def clamp_def)
  define k where "k = \<lfloor>(c + 1) / 2 * 4095\<rfloor>"
  have "0 \<le> (c + 1) / 2 * 4095" using c by simp
  then have k0: "0 \<le> k" by (simp add: k_def)
  have "(c + 1) / 2 * 4095 \<le> 4095" using c by simp
  then have k1: "k \<le> 4095" unfolding k_def by (simp add: floor_le_iff)
  have "(c + 1) * 0.5 * real (unat PWM_MAX_VALUE) = (c + 1) / 2 * 4095"
    unfolding PWM_MAX_VALUE_real by simp
  moreover have "float_to_int ((c + 1) / 2 * 4095) = k"
    using \<open>0 \<le> (c + 1) / 2 * 4095\<close> unfolding float_to_int_def k_def by (simp only: if_True)
  ultimately have f: "float_to_int ((c + 1) * 0.5 * real (unat PWM_MAX_VALUE)) = k"
    by (simp only:)
  have u: "unat (word_of_int k :: 16 word) = nat k"
    using k0 k1 by (simp add: unat_eq_nat_uint uint_word_of_int take_bit_int_eq_self)
  have le: "(word_of_int k :: 16 word) \<le> PWM_MAX_VALUE"
    using k0 k1 u by (simp add: word_le_nat_alt PWM_MAX_VALUE_eq)
  have "sampleToPWM s = clamp (word_of_int k) 0 PWM_MAX_VALUE"
    unfolding sampleToPWM_def Let_def c_def [symmetric] f ..
  then have "sampleToPWM s = word_of_int k"
    by (simp only: clamp_code_id [OF le])
  then have "int (unat (sampleToPWM s)) = k"
    using u k0 by (simp only: int_nat_eq if_True)
  then show ?thesis unfolding k_def c_def .
qed

text \<open>
  C4. Sample \<open>-1\<close> gives code 0, sample \<open>1\<close> gives code 4095, sample \<open>0\<close> gives a code
  within 1 of \<open>4095 / 2\<close>, and every sample gives the integer part of
  \<open>(clamped sample + 1) / 2 * 4095\<close>, where \<open>4095 = 2 ^ 12 - 1\<close> is \<^verbatim>\<open>PWM_MAX_VALUE\<close>.
\<close>

theorem sampleToPWM_mapping:
  "sampleToPWM (- 1) = 0
   \<and> sampleToPWM 1 = PWM_MAX_VALUE
   \<and> PWM_MAX_VALUE = 2 ^ 12 - 1
   \<and> \<bar>real (unat (sampleToPWM 0)) - real (unat PWM_MAX_VALUE) / 2\<bar> \<le> 1
   \<and> (\<forall>s. int (unat (sampleToPWM s))
            = \<lfloor>(clamp s (- 1) 1 + 1) / 2 * real (unat PWM_MAX_VALUE)\<rfloor>)"
proof (intro conjI allI)
  show "sampleToPWM (- 1) = 0"
    by (simp add: sampleToPWM_def clamp_def float_to_int_def PWM_MAX_VALUE_eq)
  show "sampleToPWM 1 = PWM_MAX_VALUE"
    by (simp add: sampleToPWM_def clamp_def float_to_int_def PWM_MAX_VALUE_eq)
  show "PWM_MAX_VALUE = 2 ^ 12 - 1"
    by (simp add: PWM_MAX_VALUE_eq)
  have "sampleToPWM 0 = 2047"
    by (simp add: sampleToPWM_def clamp_def float_to_int_def PWM_MAX_VALUE_eq)
  then show "\<bar>real (unat (sampleToPWM 0)) - real (unat PWM_MAX_VALUE) / 2\<bar> \<le> 1"
    by (simp add: PWM_MAX_VALUE_eq)
  show "int (unat (sampleToPWM s))
            = \<lfloor>(clamp s (- 1) 1 + 1) / 2 * real (unat PWM_MAX_VALUE)\<rfloor>" for s
    unfolding PWM_MAX_VALUE_real by (rule sampleToPWM_floor)
qed

section \<open>The xorshift update has no nonzero preimage of zero\<close>

lemma xor_push_bit_eq_0:
  fixes x :: "'a::len word"
  assumes k: "0 < k" and e: "x XOR push_bit k x = 0"
  shows "x = 0"
proof -
  from e have eq: "x = push_bit k x"
    by (metis xor_self_eq xor.assoc xor.right_neutral xor.commute)
  have "\<not> bit x n" for n
  proof (induction n rule: less_induct)
    case (less n)
    show ?case
    proof
      assume b: "bit x n"
      then have "bit (push_bit k x) n" using eq by simp
      then have "k \<le> n" and "bit x (n - k)"
        by (auto simp: bit_push_bit_iff)
      moreover have "n - k < n" using k \<open>k \<le> n\<close> by simp
      ultimately show False using less.IH by blast
    qed
  qed
  then show ?thesis by (simp add: bit_eq_iff)
qed

lemma xor_drop_bit_eq_0:
  fixes x :: "'a::len word"
  assumes k: "0 < k" and e: "x XOR drop_bit k x = 0"
  shows "x = 0"
proof -
  from e have eq: "x = drop_bit k x"
    by (metis xor_self_eq xor.assoc xor.right_neutral xor.commute)
  have "\<not> bit x n" for n
  proof (induction "LENGTH('a) - n" arbitrary: n rule: less_induct)
    case less
    show ?case
    proof
      assume b: "bit x n"
      then have n: "n < LENGTH('a)" by (rule bit_imp_le_length)
      from b have "bit (drop_bit k x) n" using eq by simp
      then have "bit x (n + k)" by (simp add: bit_drop_bit_eq add.commute)
      moreover have "LENGTH('a) - (n + k) < LENGTH('a) - n" using k n by simp
      ultimately show False using less by blast
    qed
  qed
  then show ?thesis by (simp add: bit_eq_iff)
qed

lemma xorshift32_eq_0_iff: "xorshift32 x = 0 \<longleftrightarrow> x = 0"
proof
  assume z: "xorshift32 x = 0"
  define a where "a = x XOR push_bit 13 x"
  define b where "b = a XOR drop_bit 17 a"
  from z have "b XOR push_bit 5 b = 0"
    by (simp add: xorshift32_def Let_def a_def b_def)
  then have "b = 0" by (rule xor_push_bit_eq_0 [rotated]) simp
  then have "a XOR drop_bit 17 a = 0" by (simp add: b_def)
  then have "a = 0" by (rule xor_drop_bit_eq_0 [rotated]) simp
  then have "x XOR push_bit 13 x = 0" by (simp add: a_def)
  then show "x = 0" by (rule xor_push_bit_eq_0 [rotated]) simp
next
  assume "x = 0"
  then show "xorshift32 x = 0" by (simp add: xorshift32_def)
qed

lemma NoiseGenerator_process_state:
  "ng_state (snd (NoiseGenerator_process g)) = xorshift32 (ng_state g)"
  by (simp add: NoiseGenerator_process_def Let_def)

lemma NoiseGenerator_run_nonzero:
  "ng_state g \<noteq> 0 \<Longrightarrow> ng_state (NoiseGenerator_run n g) \<noteq> 0"
proof (induction n arbitrary: g)
  case 0
  then show ?case by simp
next
  case (Suc n)
  have "ng_state (snd (NoiseGenerator_process g)) \<noteq> 0"
    using Suc.prems by (simp add: NoiseGenerator_process_state xorshift32_eq_0_iff)
  then show ?case using Suc.IH by simp
qed

text \<open>
  C9. A generator constructed with seed 0, or reset with seed 0, holds state 1; the
  constructor and \<^verbatim>\<open>reset\<close> never store 0; and from a nonzero state the state is
  nonzero after one \<^verbatim>\<open>process()\<close> call and after any number of them.
\<close>

theorem NoiseGenerator_state_never_zero:
  "ng_state (NoiseGenerator_new 0) = 1
   \<and> ng_state (NoiseGenerator_reset 0 g) = 1
   \<and> ng_state (NoiseGenerator_new seed) \<noteq> 0
   \<and> ng_state (NoiseGenerator_reset seed g) \<noteq> 0
   \<and> (ng_state g \<noteq> 0 \<longrightarrow>
        ng_state (snd (NoiseGenerator_process g)) \<noteq> 0
        \<and> (\<forall>n. ng_state (NoiseGenerator_run n g) \<noteq> 0))"
proof -
  have "ng_state g \<noteq> 0 \<Longrightarrow> ng_state (snd (NoiseGenerator_process g)) \<noteq> 0"
    by (simp add: NoiseGenerator_process_state xorshift32_eq_0_iff)
  then show ?thesis
    by (simp add: NoiseGenerator_new_def NoiseGenerator_reset_def NoiseGenerator_run_nonzero)
qed

theorem NoiseGenerator_state_never_zero_witness:
  "ng_state (NoiseGenerator_new 1) \<noteq> 0
   \<and> ng_state (snd (NoiseGenerator_process (NoiseGenerator_new 1))) = 270369
   \<and> ng_state (NoiseGenerator_run 2 (NoiseGenerator_new 1)) \<noteq> 0"
proof -
  have nz: "ng_state (NoiseGenerator_new 1) \<noteq> 0"
    by (simp add: NoiseGenerator_new_def)
  have v: "ng_state (snd (NoiseGenerator_process (NoiseGenerator_new 1))) = 270369"
    by (simp add: NoiseGenerator_process_def NoiseGenerator_new_def xorshift32_def Let_def)
  from NoiseGenerator_state_never_zero [of "NoiseGenerator_new 1" 1] nz v show ?thesis
    by blast
qed

end
